theory Spec2Isabelle
  imports Complex_Main "HOL-Library.Log_Nat" "HOL-Library.Sublist"
begin

section \<open>StudyOS: the session state and its records\<close>

text \<open>
  \<^verbatim>\<open>study_planner.py\<close> is a Streamlit script. Every user action runs the script once
  from top to bottom against \<^verbatim>\<open>st.session_state\<close>, which holds two lists of dictionaries:
  \<^verbatim>\<open>'tasks'\<close> and \<^verbatim>\<open>'resources'\<close> (lines 12-15). A task dictionary always has the six
  keys written by the Add Task handler (lines 99-106); its values are the strings of the
  text inputs, the date of the date picker and the string of the priority selectbox.
\<close>

type_synonym date = "int \<times> int \<times> int"

record task =
  Subject :: string
  Chapter :: string
  Topic :: string
  Due_Date :: date
  Priority :: string
  Status :: string

text \<open>
  A resource dictionary has the keys Subject, Type and Content; the Save Link handler
  adds Desc (lines 165-170), the Add Video handler does not (lines 183-187).
\<close>

record resource =
  res_Subject :: string
  res_Type :: string
  res_Content :: string
  res_Desc :: "string option"

record session_state =
  tasks :: "task list"
  resources :: "resource list"

definition initial_state :: session_state where
  "initial_state = \<lparr>tasks = [], resources = []\<rparr>"

text \<open>What the script shows after a button: \<^verbatim>\<open>st.success\<close>, \<^verbatim>\<open>st.error\<close>, \<^verbatim>\<open>st.info\<close>.\<close>

datatype message = Success string | Error string | Info string

text \<open>The exceptions of Python, pandas and Streamlit that the modelled lines can raise.\<close>

datatype py_error = KeyError string | ZeroDivisionError | IndexError | MediaFileStorageError

section \<open>The helper \<^verbatim>\<open>get_subjects\<close> (lines 22-25)\<close>

text \<open>
  \<^verbatim>\<open>list(set(xs))\<close> iterates a hash set: the result holds each element of \<^verbatim>\<open>xs\<close> once, in
  an order Python does not specify. The order is a parameter \<open>iter\<close> of the model, and
  \<open>set_iteration iter\<close> says what Python guarantees of it.
\<close>

definition set_iteration :: "(string list \<Rightarrow> string list) \<Rightarrow> bool" where
  "set_iteration iter = (\<forall>xs. distinct (iter xs) \<and> set (iter xs) = set xs)"

definition get_subjects :: "(string list \<Rightarrow> string list) \<Rightarrow> session_state \<Rightarrow> string list" where
  "get_subjects iter st =
     (if tasks st = [] then [''Math'', ''Physics'', ''History'', ''Biology'']
      else iter (map Subject (tasks st)))"

section \<open>Task Planner: the Add Task handler (lines 97-110)\<close>

text \<open>
  \<^verbatim>\<open>if subject and chapter\<close> tests that both strings are non-empty (the truth value of a
  Python string). The handler appends one dictionary and reports success, or reports the
  error and leaves the list alone.
\<close>

definition add_task_button ::
  "session_state \<Rightarrow> string \<Rightarrow> string \<Rightarrow> string \<Rightarrow> date \<Rightarrow> string \<Rightarrow> session_state \<times> message" where
  "add_task_button st subject chapter topic due_date priority =
     (if subject \<noteq> [] \<and> chapter \<noteq> [] then
        (st\<lparr>tasks := tasks st @
            [\<lparr>Subject = subject, Chapter = chapter, Topic = topic,
              Due_Date = due_date, Priority = priority, Status = ''Pending''\<rparr>]\<rparr>,
         Success ''Task Added!'')
      else (st, Error ''Please fill in at least Subject and Chapter.''))"

section \<open>Python numbers: true division, float product, \<^verbatim>\<open>int()\<close>\<close>

text \<open>
  Line 49 divides two Python integers with \<^verbatim>\<open>/\<close>, multiplies the float by 100 and
  truncates with \<^verbatim>\<open>int()\<close>. A float is an IEEE 754 binary64 number; it is modelled by the
  rational it denotes, and every operation rounds its exact result to the nearest number
  with a 53-bit significand, ties to the even significand. (Overflow and subnormal
  numbers are left out: a quotient of two list lengths and its product with 100 lie
  between \<open>2\<^sup>-\<^sup>1\<^sup>0\<^sup>2\<^sup>2\<close> and 100.)
\<close>

definition round_half_even :: "rat \<Rightarrow> int" where
  "round_half_even q =
     (let f = \<lfloor>q\<rfloor>; r = q - of_int f
      in if r < 1 / 2 then f
         else if 1 / 2 < r then f + 1
         else if even f then f else f + 1)"

text \<open>The binary exponent \<open>e\<close> of a positive rational: \<open>2\<^sup>e \<le> q < 2\<^sup>e\<^sup>+\<^sup>1\<close>.\<close>

definition binary_exponent :: "rat \<Rightarrow> int" where
  "binary_exponent q =
     (let (a, b) = quotient_of q; d = bitlen a - bitlen b
      in if 2 powi d \<le> q then d else d - 1)"

definition nearest_double :: "rat \<Rightarrow> rat" where
  "nearest_double q =
     (let ulp = 2 powi (binary_exponent q - 52)
      in of_int (round_half_even (q / ulp)) * ulp)"

definition fl :: "rat \<Rightarrow> rat" where
  "fl q = (if q = 0 then 0 else if 0 < q then nearest_double q else - nearest_double (- q))"

definition py_truediv :: "int \<Rightarrow> int \<Rightarrow> py_error + rat" where
  "py_truediv a b = (if b = 0 then Inl ZeroDivisionError else Inr (fl (of_int a / of_int b)))"

definition py_float_mul :: "rat \<Rightarrow> int \<Rightarrow> rat" where
  "py_float_mul x n = fl (x * of_int n)"

definition py_int :: "rat \<Rightarrow> int" where
  "py_int x = (if x < 0 then - \<lfloor>- x\<rfloor> else \<lfloor>x\<rfloor>)"

section \<open>pandas: a frame of dictionaries, row selection, \<^verbatim>\<open>value_counts\<close>\<close>

text \<open>
  \<^verbatim>\<open>pd.DataFrame(rows)\<close> of a list of dictionaries has one row per dictionary and one
  column per key. Built from the empty list it has no column at all, so \<^verbatim>\<open>df['Status']\<close>
  raises \<^verbatim>\<open>KeyError\<close>; built from a non-empty list of tasks it has the six columns. A frame
  is modelled by its list of rows, a column by its name and the field it reads.
\<close>

definition column :: "string \<Rightarrow> ('row \<Rightarrow> 'v) \<Rightarrow> 'row list \<Rightarrow> py_error + 'v list" where
  "column name field df = (if df = [] then Inl (KeyError name) else Inr (map field df))"

text \<open>\<^verbatim>\<open>df[df[name] == v]\<close>: the rows whose column \<open>name\<close> equals \<open>v\<close>, in their order.\<close>

definition rows_where :: "string \<Rightarrow> ('row \<Rightarrow> 'v) \<Rightarrow> 'v \<Rightarrow> 'row list \<Rightarrow> py_error + 'row list" where
  "rows_where name field v df =
     (case column name field df of
        Inl e \<Rightarrow> Inl e
      | Inr col \<Rightarrow> Inr (map fst (filter (\<lambda>(row, x). x = v) (zip df col))))"

text \<open>
  \<^verbatim>\<open>Series.value_counts()\<close> counts every distinct value in one pass (a hash table in order
  of first appearance) and then, \<^verbatim>\<open>sort=True\<close> being the default, sorts the counts in
  descending order. pandas does not promise an order among equal counts; the model keeps
  them in order of first appearance (a stable sort), and no theorem below depends on it.
  \<^verbatim>\<open>reset_index()\<close> and the assignment to \<^verbatim>\<open>columns\<close> turn the result into a frame of
  (value, Count) rows.
\<close>

fun tally :: "'a \<Rightarrow> ('a \<times> int) list \<Rightarrow> ('a \<times> int) list" where
  "tally x [] = [(x, 1)]"
| "tally x ((k, c) # kcs) = (if k = x then (k, c + 1) # kcs else (k, c) # tally x kcs)"

definition tally_all :: "'a list \<Rightarrow> ('a \<times> int) list" where
  "tally_all xs = foldl (\<lambda>table x. tally x table) [] xs"

definition value_counts :: "'a list \<Rightarrow> ('a \<times> int) list" where
  "value_counts xs = sort_key (\<lambda>kc. - snd kc) (tally_all xs)"

section \<open>Dashboard (lines 28-75)\<close>

text \<open>The KPIs of lines 46-49, each as a function of the frame \<^verbatim>\<open>df\<close> of line 43.\<close>

definition total_tasks :: "task list \<Rightarrow> int" where
  "total_tasks df = int (length df)"

definition completed :: "task list \<Rightarrow> py_error + int" where
  "completed df =
     (case rows_where ''Status'' Status ''Done'' df of
        Inl e \<Rightarrow> Inl e
      | Inr done \<Rightarrow> Inr (int (length done)))"

definition pending :: "task list \<Rightarrow> py_error + int" where
  "pending df =
     (case completed df of
        Inl e \<Rightarrow> Inl e
      | Inr c \<Rightarrow> Inr (total_tasks df - c))"

text \<open>
  Line 49, as a function of the two variables it reads:
  \<^verbatim>\<open>int((completed / total_tasks) * 100) if total_tasks > 0 else 0\<close>.
\<close>

definition completion_rate_expr :: "int \<Rightarrow> int \<Rightarrow> py_error + int" where
  "completion_rate_expr c n =
     (if n > 0 then
        (case py_truediv c n of
           Inl e \<Rightarrow> Inl e
         | Inr q \<Rightarrow> Inr (py_int (py_float_mul q 100)))
      else Inr 0)"

definition completion_rate :: "task list \<Rightarrow> py_error + int" where
  "completion_rate df =
     (case completed df of
        Inl e \<Rightarrow> Inl e
      | Inr c \<Rightarrow> completion_rate_expr c (total_tasks df))"

text \<open>The two charts (lines 65-66 and 72-73).\<close>

definition subj_counts :: "task list \<Rightarrow> py_error + (string \<times> int) list" where
  "subj_counts df =
     (case column ''Subject'' Subject df of
        Inl e \<Rightarrow> Inl e
      | Inr col \<Rightarrow> Inr (value_counts col))"

definition status_counts :: "task list \<Rightarrow> py_error + (string \<times> int) list" where
  "status_counts df =
     (case column ''Status'' Status df of
        Inl e \<Rightarrow> Inl e
      | Inr col \<Rightarrow> Inr (value_counts col))"

text \<open>
  What the page shows: with no task the welcome message of line 32 (it starts with the
  four bytes of a waving hand), the heading of line 36 and the three fixed demo metrics
  (label, value, delta) of lines 38-40; otherwise the three metrics of lines 53-55 and
  the two charts.
\<close>

definition welcome_text :: string where
  "welcome_text =
     [CHR 0xF0, CHR 0x9F, CHR 0x91, CHR 0x8B] @
     '' Welcome! Go to the 'Task Planner' tab to add your first study goal.''"

definition demo_heading :: string where
  "demo_heading = ''### *Demo View (What it will look like):*''"

definition demo_metrics :: "(string \<times> string \<times> string) list" where
  "demo_metrics =
     [(''Pending Tasks'', ''5'', ''-2''),
      (''Study Hours'', ''12.5'', ''+3.2''),
      (''Next Exam'', ''2 Days'', ''Math'')]"

datatype dashboard =
    Demo_View message string "(string \<times> string \<times> string) list"
  | Overview (shown_completion_rate: int) (shown_pending: int) (shown_completed: int)
      (bar_chart: "(string \<times> int) list") (pie_chart: "(string \<times> int) list")

definition dashboard_page :: "session_state \<Rightarrow> py_error + dashboard" where
  "dashboard_page st =
     (if tasks st = [] then
        Inr (Demo_View (Info welcome_text) demo_heading demo_metrics)
      else
        (let df = tasks st in
         case completed df of Inl e \<Rightarrow> Inl e | Inr c \<Rightarrow>
         (case pending df of Inl e \<Rightarrow> Inl e | Inr p \<Rightarrow>
         (case completion_rate df of Inl e \<Rightarrow> Inl e | Inr r \<Rightarrow>
         (case subj_counts df of Inl e \<Rightarrow> Inl e | Inr bars \<Rightarrow>
         (case status_counts df of Inl e \<Rightarrow> Inl e | Inr pie \<Rightarrow>
            Inr (Overview r p c bars pie)))))))"

section \<open>Task Planner: the to-do list (lines 112-144)\<close>

text \<open>
  The widgets of the page: the five inputs of the form, whether Add Task was pressed, the
  status filter, and what the user does in the table editor (any change of cells, any
  added or deleted row, \<^verbatim>\<open>num_rows="dynamic"\<close>), as a function from the frame shown
  to the frame \<^verbatim>\<open>st.data_editor\<close> returns, or to the exception it raises when the
  edits name a row the frame does not have.
\<close>

record planner_inputs =
  in_subject :: string
  in_chapter :: string
  in_topic :: string
  in_due_date :: date
  in_priority :: string
  in_add_task :: bool
  in_filter_status :: string
  in_edit :: "task list \<Rightarrow> py_error + task list"

text \<open>
  Two edits of the editor: delete row \<open>i\<close>, set the status of row \<open>i\<close>. The browser
  offers the rows of the frame only; for a position beyond them the editor raises
  \<^verbatim>\<open>IndexError\<close> when it applies the edit.
\<close>

definition delete_row :: "nat \<Rightarrow> task list \<Rightarrow> py_error + task list" where
  "delete_row i df =
     (if i < length df then Inr (take i df @ drop (Suc i) df) else Inl IndexError)"

definition set_status :: "nat \<Rightarrow> string \<Rightarrow> task list \<Rightarrow> py_error + task list" where
  "set_status i s df =
     (if i < length df then Inr (df[i := (df ! i)\<lparr>Status := s\<rparr>]) else Inl IndexError)"

text \<open>
  Lines 116-144. With tasks, the frame is filtered and handed to the editor; the frame
  the editor returns, \<^verbatim>\<open>edited_df\<close>, is shown and nothing else is done with it (lines
  141-142: syncing back is left out "for simplicity"). Without tasks, an info message.
\<close>

definition to_do_list ::
  "session_state \<Rightarrow> string \<Rightarrow> (task list \<Rightarrow> py_error + task list) \<Rightarrow>
     py_error + (message + task list)" where
  "to_do_list st filter_status edit =
     (if tasks st \<noteq> [] then
        (case (if filter_status \<noteq> ''All''
               then rows_where ''Status'' Status filter_status (tasks st)
               else Inr (tasks st)) of
           Inl e \<Rightarrow> Inl e
         | Inr df_tasks \<Rightarrow>
             (case edit df_tasks of
                Inl e \<Rightarrow> Inl e
              | Inr edited_df \<Rightarrow> Inr (Inr edited_df)))
      else Inr (Inl (Info ''No tasks yet. Add one above!'')))"

text \<open>
  The whole page. After a successful Add Task, \<^verbatim>\<open>st.rerun()\<close> ends the run at once; the
  list is drawn by the next run. The result is the session state the run leaves and
  what it shows: the message of the button, if any, and the to-do list, if reached.
\<close>

definition task_planner_page ::
  "session_state \<Rightarrow> planner_inputs \<Rightarrow>
     session_state \<times> message option \<times> (py_error + (message + task list)) option" where
  "task_planner_page st inp =
     (if in_add_task inp then
        (case add_task_button st (in_subject inp) (in_chapter inp) (in_topic inp)
                (in_due_date inp) (in_priority inp) of
           (st', Success m) \<Rightarrow> (st', Some (Success m), None)
         | (st', msg) \<Rightarrow>
             (st', Some msg, Some (to_do_list st' (in_filter_status inp) (in_edit inp))))
      else (st, None, Some (to_do_list st (in_filter_status inp) (in_edit inp))))"

section \<open>Resource Hub (lines 147-214)\<close>

text \<open>The Save Link handler (lines 164-171) and the Add Video handler (lines 182-187).\<close>

definition save_link_button ::
  "session_state \<Rightarrow> string \<Rightarrow> string \<Rightarrow> string \<Rightarrow> session_state \<times> message" where
  "save_link_button st selected_subject link_url link_desc =
     (st\<lparr>resources := resources st @
         [\<lparr>res_Subject = selected_subject, res_Type = ''Link'',
           res_Content = link_url, res_Desc = Some link_desc\<rparr>]\<rparr>,
      Success ''Link Saved!'')"

definition add_video_button :: "session_state \<Rightarrow> string \<Rightarrow> string \<Rightarrow> session_state" where
  "add_video_button st selected_subject video_url =
     st\<lparr>resources := resources st @
         [\<lparr>res_Subject = selected_subject, res_Type = ''Video'',
           res_Content = video_url, res_Desc = None\<rparr>]\<rparr>"

text \<open>
  The resources the two listings pick (lines 175-176 and 191-192), in stored order.
\<close>

definition shown_resources :: "session_state \<Rightarrow> string \<Rightarrow> string \<Rightarrow> resource list" where
  "shown_resources st kind selected_subject =
     filter (\<lambda>res. res_Type res = kind \<and> res_Subject res = selected_subject) (resources st)"

text \<open>
  Line 193 hands each picked video to \<^verbatim>\<open>st.video\<close>, which raises
  \<^verbatim>\<open>MediaFileStorageError\<close> for content it cannot load: the empty string always, and
  any other string that is neither a URL nor the path of a readable file. What loads is
  a matter of the server and the network, so it is a parameter \<open>loads\<close>. The loop stops
  at the first video that fails; \<^verbatim>\<open>st.markdown\<close> of line 177 shows any link.
\<close>

fun play_videos :: "(string \<Rightarrow> bool) \<Rightarrow> resource list \<Rightarrow> py_error + resource list" where
  "play_videos loads [] = Inr []"
| "play_videos loads (res # rest) =
     (if res_Content res \<noteq> [] \<and> loads (res_Content res) then
        (case play_videos loads rest of
           Inl e \<Rightarrow> Inl e
         | Inr played \<Rightarrow> Inr (res # played))
      else Inl MediaFileStorageError)"

text \<open>
  The widgets of the page: the subject the selectbox returns (one of its options), the
  two inputs of the link tab and its button, the input of the video tab and its button,
  and which contents \<^verbatim>\<open>st.video\<close> can load. The upload tab (lines 195-214) previews the
  file and stores nothing; it is left out. An exception of the video listing ends the
  run after both buttons have been handled, so the session state is the same.
\<close>

record hub_inputs =
  in_selected_subject :: string
  in_link_url :: string
  in_link_desc :: string
  in_save_link :: bool
  in_video_url :: string
  in_add_video :: bool
  in_loads :: "string \<Rightarrow> bool"

record hub_view =
  subjects :: "string list"
  link_message :: "message option"
  links :: "resource list"
  videos :: "py_error + resource list"

definition resource_hub_page ::
  "(string list \<Rightarrow> string list) \<Rightarrow> session_state \<Rightarrow> hub_inputs \<Rightarrow> session_state \<times> hub_view" where
  "resource_hub_page iter st inp =
     (let subjects0 = get_subjects iter st;
          subjects1 = (if subjects0 = [] then [''General''] else subjects0);
          selected_subject = in_selected_subject inp;
          (st1, saved) =
            (if in_save_link inp
             then (case save_link_button st selected_subject (in_link_url inp) (in_link_desc inp) of
                     (st', msg) \<Rightarrow> (st', Some msg))
             else (st, None));
          shown_links = shown_resources st1 ''Link'' selected_subject;
          st2 = (if in_add_video inp
                 then add_video_button st1 selected_subject (in_video_url inp)
                 else st1);
          shown_videos = play_videos (in_loads inp) (shown_resources st2 ''Video'' selected_subject)
      in (st2, \<lparr>subjects = subjects1, link_message = saved,
                 links = shown_links, videos = shown_videos\<rparr>))"

section \<open>One run of the script, and the states a session can reach\<close>

text \<open>
  A run is chosen by the page of the sidebar radio (line 19) and the widgets of that
  page; it leaves a session state for the next run. A session starts with both lists
  empty (lines 12-15).
\<close>

datatype user_action =
    Dashboard
  | Task_Planner planner_inputs
  | Resource_Hub hub_inputs

definition run ::
  "(string list \<Rightarrow> string list) \<Rightarrow> session_state \<Rightarrow> user_action \<Rightarrow> session_state" where
  "run iter st a =
     (case a of
        Dashboard \<Rightarrow> st
      | Task_Planner inp \<Rightarrow> fst (task_planner_page st inp)
      | Resource_Hub inp \<Rightarrow> fst (resource_hub_page iter st inp))"

inductive reachable :: "(string list \<Rightarrow> string list) \<Rightarrow> session_state \<Rightarrow> bool"
  for iter :: "string list \<Rightarrow> string list" where
  start: "reachable iter initial_state"
| step: "reachable iter st \<Longrightarrow> reachable iter (run iter st a)"

section \<open>Example data\<close>

text \<open>A task as the Add Task handler stores it, with a given subject and status.\<close>

definition example_task :: "string \<Rightarrow> string \<Rightarrow> task" where
  "example_task subject status =
     \<lparr>Subject = subject, Chapter = ''Ch1'', Topic = ''Topic A'',
      Due_Date = (2024, 1, 10), Priority = ''High'', Status = status\<rparr>"

text \<open>A session with two pending tasks, as two presses of Add Task leave it.\<close>

definition two_tasks :: session_state where
  "two_tasks =
     \<lparr>tasks = [example_task ''Math'' ''Pending'', example_task ''Physics'' ''Pending''],
      resources = []\<rparr>"

text \<open>
  The Task Planner page with a filled form; \<open>press\<close> says whether Add Task is pressed,
  \<open>edit\<close> what is done in the table editor. The filter is left at All.
\<close>

definition planner ::
  "string \<Rightarrow> bool \<Rightarrow> (task list \<Rightarrow> py_error + task list) \<Rightarrow> planner_inputs" where
  "planner subject press edit =
     \<lparr>in_subject = subject, in_chapter = ''Ch1'', in_topic = ''Topic A'',
      in_due_date = (2024, 1, 10), in_priority = ''High'', in_add_task = press,
      in_filter_status = ''All'', in_edit = edit\<rparr>"

text \<open>Three tasks whose most frequent subject and status are not the first seen.\<close>

definition three_tasks :: "task list" where
  "three_tasks =
     [example_task ''Math'' ''Pending'', example_task ''Physics'' ''Done'',
      example_task ''Physics'' ''Done'']"

section \<open>Predicates of the proofs\<close>

text \<open>
  \<open>tallied xs t\<close>: the table \<open>t\<close> has one entry per distinct element of \<open>xs\<close>, and each
  count is the number of occurrences of its key in \<open>xs\<close>.
\<close>

definition tallied :: "'a list \<Rightarrow> ('a \<times> int) list \<Rightarrow> bool" where
  "tallied xs t =
     (distinct (map fst t) \<and> set (map fst t) = set xs
      \<and> map snd t = map (\<lambda>k. int (count_list xs k)) (map fst t))"

section \<open>Properties of the Add Task handler\<close>

text \<open>
  Claim C2, as the code has it. When subject or chapter is the empty string, the Add Task
  handler reports the validation error and returns the session state it was given: the
  task list has the same length and the same elements. (A value of blanks only is not
  empty for \<^verbatim>\<open>if subject and chapter\<close>, and is accepted.)
\<close>

theorem add_task_empty_rejected:
  assumes "subject = [] \<or> chapter = []"
  shows "add_task_button st subject chapter topic due_date priority =
           (st, Error ''Please fill in at least Subject and Chapter.'')"
  using assms by (auto simp: add_task_button_def)

theorem add_task_empty_rejected_witness:
  "add_task_button initial_state [] ''Ch1'' ''Topic A'' (2024, 1, 10) ''High'' =
     (initial_state, Error ''Please fill in at least Subject and Chapter.'')"
  using add_task_empty_rejected [of "[]" "''Ch1''" initial_state "''Topic A''" "(2024, 1, 10)" "''High''"]
  by simp

text \<open>
  Claim C2 as stated fails for a whitespace-only subject: one blank is a non-empty
  string, the handler reports success and the task is stored.
\<close>

theorem add_task_blank_subject_accepted:
  "add_task_button initial_state '' '' ''Ch1'' ''Topic A'' (2024, 1, 10) ''High'' =
     (\<lparr>tasks = [\<lparr>Subject = '' '', Chapter = ''Ch1'', Topic = ''Topic A'',
                  Due_Date = (2024, 1, 10), Priority = ''High'', Status = ''Pending''\<rparr>],
       resources = []\<rparr>,
      Success ''Task Added!'')"
  by (simp add: add_task_button_def initial_state_def)

text \<open>
  Claim C8. With non-empty subject and chapter the handler reports success, the task list
  is the old list followed by exactly one new task, that task carries the five inputs and
  the status Pending, and the resources are untouched.
\<close>

theorem add_task_appends_pending:
  assumes "subject \<noteq> []" and "chapter \<noteq> []"
  shows "\<exists>st'. add_task_button st subject chapter topic due_date priority =
                  (st', Success ''Task Added!'')
           \<and> length (tasks st') = length (tasks st) + 1
           \<and> take (length (tasks st)) (tasks st') = tasks st
           \<and> last (tasks st') =
                \<lparr>Subject = subject, Chapter = chapter, Topic = topic,
                 Due_Date = due_date, Priority = priority, Status = ''Pending''\<rparr>
           \<and> tasks st' = tasks st @ [last (tasks st')]
           \<and> resources st' = resources st"
  using assms by (simp add: add_task_button_def)

theorem add_task_appends_pending_witness:
  "\<exists>st'. add_task_button initial_state ''Math'' ''Ch1'' ''Topic A'' (2024, 1, 10) ''High'' =
            (st', Success ''Task Added!'')
        \<and> length (tasks st') = length (tasks initial_state) + 1
        \<and> take (length (tasks initial_state)) (tasks st') = tasks initial_state
        \<and> last (tasks st') =
             \<lparr>Subject = ''Math'', Chapter = ''Ch1'', Topic = ''Topic A'',
              Due_Date = (2024, 1, 10), Priority = ''High'', Status = ''Pending''\<rparr>
        \<and> tasks st' = tasks initial_state @ [last (tasks st')]
        \<and> resources st' = resources initial_state"
  using add_task_appends_pending [of "''Math''" "''Ch1''" initial_state "''Topic A''" "(2024, 1, 10)" "''High''"]
  by simp

section \<open>Properties of the Resource Hub handlers\<close>

text \<open>
  Claim C3, as the code has it. Save Link and Add Video check nothing: every call appends
  exactly one resource, with the content it was given, at the end of the resource list,
  and Save Link always reports success. The tasks are untouched.
\<close>

theorem resource_buttons_always_append:
  "save_link_button st selected_subject link_url link_desc =
     (st\<lparr>resources := resources st @
         [\<lparr>res_Subject = selected_subject, res_Type = ''Link'',
           res_Content = link_url, res_Desc = Some link_desc\<rparr>]\<rparr>,
      Success ''Link Saved!'')
   \<and> add_video_button st selected_subject video_url =
       st\<lparr>resources := resources st @
         [\<lparr>res_Subject = selected_subject, res_Type = ''Video'',
           res_Content = video_url, res_Desc = None\<rparr>]\<rparr>
   \<and> length (resources (fst (save_link_button st selected_subject link_url link_desc))) =
       length (resources st) + 1
   \<and> length (resources (add_video_button st selected_subject video_url)) =
       length (resources st) + 1"
  by (simp add: save_link_button_def add_video_button_def)

text \<open>
  Claim C3 as stated fails at the empty URL: a link and a video with empty content are
  appended, and Save Link reports success.
\<close>

theorem empty_content_is_appended:
  "save_link_button initial_state ''Math'' [] ''notes'' =
     (\<lparr>tasks = [],
       resources = [\<lparr>res_Subject = ''Math'', res_Type = ''Link'',
                      res_Content = [], res_Desc = Some ''notes''\<rparr>]\<rparr>,
      Success ''Link Saved!'')
   \<and> add_video_button initial_state ''Math'' [] =
       \<lparr>tasks = [],
        resources = [\<lparr>res_Subject = ''Math'', res_Type = ''Video'',
                       res_Content = [], res_Desc = None\<rparr>]\<rparr>"
  by (simp add: save_link_button_def add_video_button_def initial_state_def)

section \<open>The task list over a session\<close>

lemma tasks_add_task_button:
  "prefix (tasks st) (tasks (fst (add_task_button st subject chapter topic due_date priority)))"
  by (simp add: add_task_button_def)

lemma tasks_task_planner_page:
  "prefix (tasks st) (tasks (fst (task_planner_page st inp)))"
  using tasks_add_task_button
    [of st "in_subject inp" "in_chapter inp" "in_topic inp" "in_due_date inp" "in_priority inp"]
  by (auto simp: task_planner_page_def split: prod.splits message.splits)

lemma tasks_resource_hub_page:
  "tasks (fst (resource_hub_page iter st inp)) = tasks st"
  by (simp add: resource_hub_page_def Let_def save_link_button_def add_video_button_def)

lemma planner_without_add_task:
  "\<not> in_add_task inp \<Longrightarrow> fst (task_planner_page st inp) = st"
  by (simp add: task_planner_page_def)

lemma to_do_list_delete_row:
  assumes "i < length (tasks st)"
  shows "to_do_list st ''All'' (delete_row i) =
           Inr (Inr (take i (tasks st) @ drop (Suc i) (tasks st)))"
proof -
  from assms have "tasks st \<noteq> []" by auto
  with assms show ?thesis by (simp add: to_do_list_def delete_row_def)
qed

text \<open>
  Claim C5, as the code has it. The script has no operation that removes a task. A row
  deleted in the table editor at a position \<open>i\<close> of the list (shown with the filter
  at All) is missing only from the frame the editor returns, which keeps the other rows
  in their order and is never written back: a run of the Task Planner without Add Task leaves the task list as it
  was, whatever is done in the editor; and after any run at all the old task list is a
  prefix of the new one, so every stored task stays where it was.
\<close>

theorem no_run_removes_a_task:
  "prefix (tasks st) (tasks (run iter st a))
   \<and> tasks (run iter st (Task_Planner (inp\<lparr>in_add_task := False, in_edit := edit\<rparr>))) = tasks st
   \<and> (i < length (tasks st) \<longrightarrow>
        task_planner_page st
          (inp\<lparr>in_add_task := False, in_filter_status := ''All'', in_edit := delete_row i\<rparr>) =
        (st, None, Some (Inr (Inr (take i (tasks st) @ drop (Suc i) (tasks st))))))"
proof (intro conjI impI)
  show "prefix (tasks st) (tasks (run iter st a))"
    by (cases a) (simp_all add: run_def tasks_task_planner_page tasks_resource_hub_page)
  show "tasks (run iter st (Task_Planner (inp\<lparr>in_add_task := False, in_edit := edit\<rparr>))) = tasks st"
    by (simp add: run_def planner_without_add_task)
  assume "i < length (tasks st)"
  then show "task_planner_page st
      (inp\<lparr>in_add_task := False, in_filter_status := ''All'', in_edit := delete_row i\<rparr>) =
    (st, None, Some (Inr (Inr (take i (tasks st) @ drop (Suc i) (tasks st)))))"
    by (simp add: task_planner_page_def to_do_list_delete_row)
qed

text \<open>
  On the store of two tasks, deleting row 1 in the editor: the frame shown is the first
  task alone, the store still holds both.
\<close>

theorem no_run_removes_a_task_witness:
  "task_planner_page two_tasks (planner [] False (delete_row 1)) =
     (two_tasks, None, Some (Inr (Inr [example_task ''Math'' ''Pending''])))
   \<and> tasks (run remdups two_tasks (Task_Planner (planner [] False (delete_row 1)))) =
       tasks two_tasks"
proof -
  let ?inp = "planner [] False (delete_row 1)"
  have i: "1 < length (tasks two_tasks)" by (simp add: two_tasks_def)
  have inp: "?inp\<lparr>in_add_task := False, in_filter_status := ''All'', in_edit := delete_row 1\<rparr> = ?inp"
    "?inp\<lparr>in_add_task := False, in_edit := delete_row 1\<rparr> = ?inp"
    by (simp_all add: planner_def)
  have rows: "take 1 (tasks two_tasks) @ drop (Suc 1) (tasks two_tasks) =
      [example_task ''Math'' ''Pending'']"
    by (simp add: two_tasks_def)
  from no_run_removes_a_task
    [where st = two_tasks and iter = remdups and a = Dashboard and inp = ?inp
       and edit = "delete_row 1" and i = 1] i
  have "tasks (run remdups two_tasks
            (Task_Planner (?inp\<lparr>in_add_task := False, in_edit := delete_row 1\<rparr>))) = tasks two_tasks
        \<and> task_planner_page two_tasks
            (?inp\<lparr>in_add_task := False, in_filter_status := ''All'', in_edit := delete_row 1\<rparr>) =
          (two_tasks, None,
           Some (Inr (Inr (take 1 (tasks two_tasks) @ drop (Suc 1) (tasks two_tasks)))))"
    by blast
  then show ?thesis by (simp only: inp rows)
qed

text \<open>
  Claim C5 as stated fails on a store of two tasks. Deleting row 0 in the editor returns
  a frame without it, yet the store keeps both tasks, and so does the next listing.
\<close>

theorem deleting_a_row_keeps_the_store:
  "task_planner_page two_tasks (planner [] False (delete_row 0)) =
     (two_tasks, None, Some (Inr (Inr [example_task ''Physics'' ''Pending''])))
   \<and> tasks (run remdups two_tasks (Task_Planner (planner [] False (delete_row 0)))) =
       [example_task ''Math'' ''Pending'', example_task ''Physics'' ''Pending'']
   \<and> to_do_list (run remdups two_tasks (Task_Planner (planner [] False (delete_row 0))))
         ''All'' Inr =
       Inr (Inr [example_task ''Math'' ''Pending'', example_task ''Physics'' ''Pending''])"
  by (simp add: run_def task_planner_page_def to_do_list_def planner_def two_tasks_def
      delete_row_def)

lemma pending_add_task_button:
  assumes "\<forall>t \<in> set (tasks st). Status t = ''Pending''"
  shows "\<forall>t \<in> set (tasks (fst (add_task_button st subject chapter topic due_date priority))).
           Status t = ''Pending''"
  using assms by (auto simp: add_task_button_def)

lemma pending_run:
  assumes "\<forall>t \<in> set (tasks st). Status t = ''Pending''"
  shows "\<forall>t \<in> set (tasks (run iter st a)). Status t = ''Pending''"
proof (cases a)
  case Dashboard
  with assms show ?thesis by (simp add: run_def)
next
  case (Task_Planner inp)
  show ?thesis
    using assms pending_add_task_button
      [OF assms, of "in_subject inp" "in_chapter inp" "in_topic inp" "in_due_date inp" "in_priority inp"]
    by (auto simp: Task_Planner run_def task_planner_page_def split: prod.splits message.splits)
next
  case (Resource_Hub inp)
  with assms show ?thesis by (simp add: run_def tasks_resource_hub_page)
qed

text \<open>
  Claim C9. In every session state that runs of the script can reach from the initial
  state, every stored task has the status Pending: Add Task writes Pending, the frame
  returned by the table editor is dropped, and no other run touches the task list. So no
  reachable state holds a task with status In Progress or Done.
\<close>

theorem every_stored_task_is_pending:
  assumes "reachable iter st"
  shows "\<forall>t \<in> set (tasks st). Status t = ''Pending''"
  using assms
proof (induction rule: reachable.induct)
  case start
  show ?case by (simp add: initial_state_def)
next
  case (step st a)
  from step.IH show ?case by (rule pending_run)
qed

lemma run_add_math:
  "run remdups initial_state (Task_Planner (planner ''Math'' True Inr)) =
     \<lparr>tasks = [example_task ''Math'' ''Pending''], resources = []\<rparr>"
  by (simp add: run_def task_planner_page_def add_task_button_def planner_def
      initial_state_def example_task_def)

lemma run_edit_status:
  "run remdups \<lparr>tasks = [example_task ''Math'' ''Pending''], resources = []\<rparr>
     (Task_Planner (planner [] False (set_status 0 ''Done''))) =
   \<lparr>tasks = [example_task ''Math'' ''Pending''], resources = []\<rparr>"
  by (simp add: run_def task_planner_page_def planner_def)

text \<open>
  A session that adds a task and then sets its status to Done in the table editor: the
  state is reachable, it holds one task, and that task is still pending.
\<close>

theorem every_stored_task_is_pending_witness:
  "reachable remdups \<lparr>tasks = [example_task ''Math'' ''Pending''], resources = []\<rparr>
   \<and> Status (hd (tasks \<lparr>tasks = [example_task ''Math'' ''Pending''], resources = []\<rparr>)) = ''Pending''"
proof -
  let ?st = "\<lparr>tasks = [example_task ''Math'' ''Pending''], resources = []\<rparr>"
  have "reachable remdups (run remdups initial_state (Task_Planner (planner ''Math'' True Inr)))"
    by (rule reachable.step) (rule reachable.start)
  then have "reachable remdups ?st" by (simp only: run_add_math)
  then have "reachable remdups (run remdups ?st (Task_Planner (planner [] False (set_status 0 ''Done''))))"
    by (rule reachable.step)
  then have r: "reachable remdups ?st" by (simp only: run_edit_status)
  have "hd (tasks ?st) \<in> set (tasks ?st)" by simp
  with every_stored_task_is_pending [OF r] have p: "Status (hd (tasks ?st)) = ''Pending''"
    by (rule bspec)
  from r p show ?thesis by (rule conjI)
qed

section \<open>Properties of \<^verbatim>\<open>get_subjects\<close>\<close>

text \<open>
  Claim C10. With an empty task list \<open>get_subjects\<close> itself returns the four default
  subjects; otherwise it returns the subjects of the stored tasks, each once, in the
  order in which the set is iterated. It never returns the empty list, so the
  caller's own fallback (lines 152-153) is never taken.
\<close>

theorem get_subjects_defaults_or_distinct:
  assumes "set_iteration iter"
  shows "(tasks st = [] \<longrightarrow>
            get_subjects iter st = [''Math'', ''Physics'', ''History'', ''Biology''])
       \<and> (tasks st \<noteq> [] \<longrightarrow>
            distinct (get_subjects iter st)
            \<and> set (get_subjects iter st) = Subject ` set (tasks st))
       \<and> get_subjects iter st \<noteq> []"
proof -
  from assms have iter: "distinct (iter xs)" "set (iter xs) = set xs" for xs
    by (simp_all add: set_iteration_def)
  have "iter (map Subject (tasks st)) \<noteq> []" if "tasks st \<noteq> []"
  proof
    assume "iter (map Subject (tasks st)) = []"
    then have "set (iter (map Subject (tasks st))) = {}" by simp
    with iter(2) have "set (map Subject (tasks st)) = {}" by simp
    with that show False by simp
  qed
  then show ?thesis
    by (auto simp: get_subjects_def iter)
qed

text \<open>
  Two iteration orders Python may use: the defaults on the empty store under the first,
  the subjects of a store of two tasks under the second.
\<close>

theorem get_subjects_defaults_or_distinct_witness:
  "set_iteration remdups
   \<and> get_subjects remdups initial_state = [''Math'', ''Physics'', ''History'', ''Biology'']
   \<and> distinct (get_subjects (rev \<circ> remdups) two_tasks)
   \<and> set (get_subjects (rev \<circ> remdups) two_tasks) = Subject ` set (tasks two_tasks)"
proof -
  have 1: "set_iteration remdups" by (simp add: set_iteration_def)
  have 2: "set_iteration (rev \<circ> remdups)" by (simp add: set_iteration_def)
  have e: "tasks initial_state = []" by (simp add: initial_state_def)
  have n: "tasks two_tasks \<noteq> []" by (simp add: two_tasks_def)
  from get_subjects_defaults_or_distinct [OF 1, of initial_state] e
  have "get_subjects remdups initial_state = [''Math'', ''Physics'', ''History'', ''Biology'']"
    by blast
  moreover from get_subjects_defaults_or_distinct [OF 2, of two_tasks] n
  have "distinct (get_subjects (rev \<circ> remdups) two_tasks)
        \<and> set (get_subjects (rev \<circ> remdups) two_tasks) = Subject ` set (tasks two_tasks)"
    by blast
  ultimately show ?thesis using 1 by blast
qed

section \<open>Properties of the frame operations and of \<^verbatim>\<open>value_counts\<close>\<close>

lemma map_fst_tally:
  "map fst (tally x t) = (if x \<in> fst ` set t then map fst t else map fst t @ [x])"
  by (induction x t rule: tally.induct) auto

lemma map_snd_tally:
  "distinct (map fst t) \<Longrightarrow>
   map snd (tally x t) =
     (if x \<in> fst ` set t then map (\<lambda>(k, c). if k = x then c + 1 else c) t
      else map snd t @ [1])"
  by (induction x t rule: tally.induct) (auto simp: image_iff)

lemma tallied_tally:
  assumes "tallied xs t"
  shows "tallied (xs @ [x]) (tally x t)"
proof -
  from assms have d: "distinct (map fst t)" and s: "set (map fst t) = set xs"
    and c: "map snd t = map (\<lambda>k. int (count_list xs k)) (map fst t)"
    by (simp_all add: tallied_def)
  show ?thesis
  proof (cases "x \<in> fst ` set t")
    case True
    have "map (\<lambda>(k, c). if k = x then c + 1 else c) t =
          map (\<lambda>k. int (count_list (xs @ [x]) k)) (map fst t)"
      using c by (induction t) (auto)
    with True d s show ?thesis
      by (auto simp: tallied_def map_fst_tally map_snd_tally)
  next
    case False
    with s have "x \<notin> set xs" by auto
    then have "count_list xs x = 0" by (simp add: count_list_0_iff)
    moreover have "map (\<lambda>k. int (count_list (xs @ [x]) k)) (map fst t) = map snd t"
      using c False by (induction t) auto
    ultimately show ?thesis using False d s
      by (auto simp: tallied_def map_fst_tally map_snd_tally)
  qed
qed

lemma tallied_tally_all: "tallied xs (tally_all xs)"
proof (induction xs rule: rev_induct)
  case Nil
  show ?case by (simp add: tally_all_def tallied_def)
next
  case (snoc x xs)
  then show ?case using tallied_tally [of xs "tally_all xs" x]
    by (simp add: tally_all_def)
qed

lemma map_snd_eq_iff:
  "map snd t = map g (map fst t) \<longleftrightarrow> (\<forall>kc \<in> set t. snd kc = g (fst kc))"
  by (induction t) auto

lemma value_counts_spec:
  "distinct (map fst (value_counts xs))
   \<and> set (map fst (value_counts xs)) = set xs
   \<and> map snd (value_counts xs) = map (\<lambda>k. int (count_list xs k)) (map fst (value_counts xs))
   \<and> sorted_wrt (\<lambda>c c'. c' \<le> c) (map snd (value_counts xs))"
proof -
  let ?t = "tally_all xs" and ?r = "value_counts xs"
  have t: "distinct (map fst ?t)" "set (map fst ?t) = set xs"
    "\<forall>kc \<in> set ?t. snd kc = int (count_list xs (fst kc))"
    using tallied_tally_all [of xs] by (simp_all add: tallied_def map_snd_eq_iff)
  have set_r: "set ?r = set ?t" by (simp add: value_counts_def)
  from t(1) have "distinct ?t \<and> inj_on fst (set ?t)" by (simp add: distinct_map)
  then have "distinct ?r \<and> inj_on fst (set ?r)" by (simp add: value_counts_def)
  then have 1: "distinct (map fst ?r)" by (simp add: distinct_map)
  have 2: "set (map fst ?r) = set xs" using t(2) set_r by simp
  have 3: "map snd ?r = map (\<lambda>k. int (count_list xs k)) (map fst ?r)"
    using t(3) set_r by (simp add: map_snd_eq_iff)
  have "sorted (map (\<lambda>kc. - snd kc) ?r)"
    unfolding value_counts_def by (rule sorted_sort_key)
  then have 4: "sorted_wrt (\<lambda>c c'. c' \<le> c) (map snd ?r)"
    by (simp add: sorted_wrt_map)
  from 1 2 3 4 show ?thesis by blast
qed

lemma rows_where_filter:
  "df \<noteq> [] \<Longrightarrow> rows_where name field v df = Inr (filter (\<lambda>row. field row = v) df)"
proof -
  have "map fst (filter (\<lambda>(row, x). x = v) (zip xs (map field xs))) = filter (\<lambda>row. field row = v) xs" for xs
    by (induction xs) auto
  then show "df \<noteq> [] \<Longrightarrow> ?thesis" by (simp add: rows_where_def column_def)
qed

lemma rows_where_empty: "rows_where name field v [] = Inl (KeyError name)"
  by (simp add: rows_where_def column_def)

lemma completed_nonempty:
  "df \<noteq> [] \<Longrightarrow> completed df = Inr (int (length (filter (\<lambda>t. Status t = ''Done'') df)))"
  by (simp add: completed_def rows_where_filter)

lemma completed_empty: "completed [] = Inl (KeyError ''Status'')"
  by (simp add: completed_def rows_where_empty)

text \<open>
  Claim C4, as the code has it. With at least one task (with none the dashboard draws no
  chart) both charts get one (key, count) pair per distinct value, each count being the
  number of occurrences of its key, and the pairs are in descending order of count:
  \<^verbatim>\<open>value_counts()\<close> sorts by frequency. The order among equal counts is left open.
\<close>

theorem charts_count_and_sort_by_frequency:
  assumes "df \<noteq> []"
  shows "\<exists>bars pie. subj_counts df = Inr bars \<and> status_counts df = Inr pie
           \<and> distinct (map fst bars) \<and> set (map fst bars) = Subject ` set df
           \<and> map snd bars = map (\<lambda>k. int (count_list (map Subject df) k)) (map fst bars)
           \<and> sorted_wrt (\<lambda>c c'. c' \<le> c) (map snd bars)
           \<and> distinct (map fst pie) \<and> set (map fst pie) = Status ` set df
           \<and> map snd pie = map (\<lambda>k. int (count_list (map Status df) k)) (map fst pie)
           \<and> sorted_wrt (\<lambda>c c'. c' \<le> c) (map snd pie)"
  using assms value_counts_spec [of "map Subject df"] value_counts_spec [of "map Status df"]
  by (simp add: subj_counts_def status_counts_def column_def)

theorem charts_count_and_sort_by_frequency_witness:
  "\<exists>bars pie. subj_counts three_tasks = Inr bars \<and> status_counts three_tasks = Inr pie
     \<and> distinct (map fst bars) \<and> set (map fst bars) = Subject ` set three_tasks
     \<and> map snd bars = map (\<lambda>k. int (count_list (map Subject three_tasks) k)) (map fst bars)
     \<and> sorted_wrt (\<lambda>c c'. c' \<le> c) (map snd bars)
     \<and> distinct (map fst pie) \<and> set (map fst pie) = Status ` set three_tasks
     \<and> map snd pie = map (\<lambda>k. int (count_list (map Status three_tasks) k)) (map fst pie)
     \<and> sorted_wrt (\<lambda>c c'. c' \<le> c) (map snd pie)"
proof -
  have "three_tasks \<noteq> []" by (simp add: three_tasks_def)
  then show ?thesis by (rule charts_count_and_sort_by_frequency)
qed

text \<open>
  Claim C4 as stated fails on three tasks with subjects Math, Physics, Physics and
  statuses Pending, Done, Done: first seen are Math and Pending, yet both charts start
  with the most frequent value.
\<close>

theorem charts_are_not_in_first_seen_order:
  "subj_counts three_tasks = Inr [(''Physics'', 2), (''Math'', 1)]
   \<and> tally_all (map Subject three_tasks) = [(''Math'', 1), (''Physics'', 2)]
   \<and> status_counts three_tasks = Inr [(''Done'', 2), (''Pending'', 1)]
   \<and> tally_all (map Status three_tasks) = [(''Pending'', 1), (''Done'', 2)]"
  by (simp add: subj_counts_def status_counts_def column_def value_counts_def tally_all_def
      three_tasks_def example_task_def)

section \<open>Properties of the KPIs\<close>

lemma pending_nonempty:
  "df \<noteq> [] \<Longrightarrow>
   pending df = Inr (int (length df) - int (length (filter (\<lambda>t. Status t = ''Done'') df)))"
  by (simp add: pending_def total_tasks_def completed_nonempty)

text \<open>
  Claim C6, as the code has it. For every task list with at least one task, lines 46-48
  yield the three counts: the total is the number of tasks, completed the number of
  tasks whose status is Done, pending the total minus completed, and completed plus
  pending is the total. (With no task the dashboard does not reach these lines.)
\<close>

theorem kpi_counts_add_up:
  assumes "df \<noteq> []"
  shows "\<exists>c p. completed df = Inr c \<and> pending df = Inr p
           \<and> c + p = total_tasks df
           \<and> total_tasks df = int (length df)
           \<and> c = int (length (filter (\<lambda>t. Status t = ''Done'') df))
           \<and> p = total_tasks df - c
           \<and> 0 \<le> c \<and> 0 \<le> p"
proof -
  have "length (filter (\<lambda>t. Status t = ''Done'') df) \<le> length df" by simp
  then have "int (length (filter (\<lambda>t. Status t = ''Done'') df)) \<le> int (length df)"
    by (simp only: of_nat_le_iff)
  with assms show ?thesis
    by (simp add: completed_nonempty pending_nonempty total_tasks_def)
qed

text \<open>Three tasks, two of them done: completed 2, pending 1, total 3.\<close>

theorem kpi_counts_add_up_witness:
  "completed three_tasks = Inr 2 \<and> pending three_tasks = Inr 1 \<and> total_tasks three_tasks = 3"
proof -
  have n: "three_tasks \<noteq> []" by (simp add: three_tasks_def)
  have f: "int (length (filter (\<lambda>t. Status t = ''Done'') three_tasks)) = 2"
    "int (length three_tasks) = 3"
    by (simp_all add: three_tasks_def example_task_def)
  from kpi_counts_add_up [OF n] obtain c p where
    "completed three_tasks = Inr c" "pending three_tasks = Inr p"
    "total_tasks three_tasks = int (length three_tasks)"
    "c = int (length (filter (\<lambda>t. Status t = ''Done'') three_tasks))"
    "p = total_tasks three_tasks - c"
    by blast
  then show ?thesis by (simp only: f) simp
qed

text \<open>
  Claim C6 as stated fails on the empty task list, which the claim includes: there the
  frame has no Status column, lines 47 and 48 yield no count at all, and the dashboard
  does not run them but shows the demo view.
\<close>

theorem kpi_counts_need_a_task:
  "completed [] = Inl (KeyError ''Status'')
   \<and> pending [] = Inl (KeyError ''Status'')
   \<and> dashboard_page \<lparr>tasks = [], resources = []\<rparr> =
       Inr (Demo_View (Info welcome_text) demo_heading demo_metrics)"
  by (simp add: dashboard_page_def pending_def completed_empty)






section \<open>The completion rate: rounding error of the two float operations\<close>

lemma round_half_even_error: "\<bar>of_int (round_half_even q) - q\<bar> \<le> 1 / 2"
proof -
  have "of_int \<lfloor>q\<rfloor> \<le> q" "q < of_int \<lfloor>q\<rfloor> + 1" by linarith+
  then show ?thesis
    by (auto simp: round_half_even_def Let_def abs_le_iff)
qed

lemma binary_exponent_le:
  assumes "0 < q"
  shows "2 powi binary_exponent q \<le> q"
proof -
  obtain a b where ab: "quotient_of q = (a, b)" by (cases "quotient_of q")
  then have b: "0 < b" and q: "q = of_int a / of_int b"
    by (simp_all add: quotient_of_denom_pos quotient_of_div)
  with assms have a: "0 < a" by (simp add: zero_less_divide_iff)
  let ?d = "bitlen a - bitlen b"
  have la: "(2::rat) powi (bitlen a - 1) \<le> of_int a"
  proof -
    from bitlen_bounds [OF a] have "2 ^ nat (bitlen a - 1) \<le> a" by simp
    then have "(of_int (2 ^ nat (bitlen a - 1)) :: rat) \<le> of_int a" by (simp only: of_int_le_iff)
    moreover have "0 \<le> bitlen a - 1" using a bitlen_bounds [OF a] bitlen_nonneg [of a]
      by (metis bitlen_eq_zero_iff diff_ge_0_iff_ge int_one_le_iff_zero_less leD linorder_le_less_linear order_le_less)
    ultimately show ?thesis by (simp add: power_int_def)
  qed
  have lb: "of_int b \<le> (2::rat) powi bitlen b"
  proof -
    from bitlen_bounds [OF b] have "b \<le> 2 ^ nat (bitlen b)" by simp
    then have "(of_int b :: rat) \<le> of_int (2 ^ nat (bitlen b))" by (simp only: of_int_le_iff)
    then show ?thesis using bitlen_nonneg [of b] by (simp add: power_int_def)
  qed
  have "(2::rat) powi (?d - 1) = 2 powi (bitlen a - 1) / 2 powi bitlen b"
    by (simp add: power_int_diff)
  also have "\<dots> \<le> of_int a / of_int b"
    using la lb b a by (intro frac_le) simp_all
  finally have low: "(2::rat) powi (?d - 1) \<le> q" by (simp add: q)
  show ?thesis
    using low ab by (simp add: binary_exponent_def Let_def)
qed

lemma binary_exponent_gt:
  assumes "0 < q"
  shows "q < 2 powi (binary_exponent q + 1)"
proof -
  obtain a b where ab: "quotient_of q = (a, b)" by (cases "quotient_of q")
  then have b: "0 < b" and q: "q = of_int a / of_int b"
    by (simp_all add: quotient_of_denom_pos quotient_of_div)
  with assms have a: "0 < a" by (simp add: zero_less_divide_iff)
  let ?d = "bitlen a - bitlen b"
  have la: "of_int a < (2::rat) powi bitlen a"
  proof -
    from bitlen_bounds [OF a] have "a < 2 ^ nat (bitlen a)" by simp
    then have "(of_int a :: rat) < of_int (2 ^ nat (bitlen a))" by (simp only: of_int_less_iff)
    then show ?thesis using bitlen_nonneg [of a] by (simp add: power_int_def)
  qed
  have lb: "(2::rat) powi (bitlen b - 1) \<le> of_int b"
  proof -
    from bitlen_bounds [OF b] have "2 ^ nat (bitlen b - 1) \<le> b" by simp
    then have "(of_int (2 ^ nat (bitlen b - 1)) :: rat) \<le> of_int b" by (simp only: of_int_le_iff)
    moreover have "0 \<le> bitlen b - 1" using b bitlen_nonneg [of b] bitlen_eq_zero_iff [of b]
      by linarith
    ultimately show ?thesis by (simp add: power_int_def)
  qed
  have "of_int a / of_int b < (2::rat) powi bitlen a / 2 powi (bitlen b - 1)"
    using la lb b a by (intro frac_less) simp_all
  also have "\<dots> = 2 powi (?d + 1)"
    by (simp add: power_int_diff power_int_add)
  finally have up: "q < 2 powi (?d + 1)" by (simp add: q)
  show ?thesis
  proof (cases "(2::rat) powi ?d \<le> q")
    case True
    with up ab show ?thesis by (simp add: binary_exponent_def Let_def)
  next
    case False
    with ab show ?thesis by (simp add: binary_exponent_def Let_def)
  qed
qed

lemma nearest_double_error:
  assumes "0 < q"
  shows "\<bar>nearest_double q - q\<bar> \<le> q / 2 ^ 53"
proof -
  let ?e = "binary_exponent q"
  let ?ulp = "(2::rat) powi (?e - 52)"
  let ?m = "round_half_even (q / ?ulp)"
  have ulp: "0 < ?ulp" by simp
  have "\<bar>of_int ?m - q / ?ulp\<bar> \<le> 1 / 2" by (rule round_half_even_error)
  then have "\<bar>of_int ?m - q / ?ulp\<bar> * ?ulp \<le> 1 / 2 * ?ulp"
    using ulp by (intro mult_right_mono) simp_all
  moreover have "\<bar>of_int ?m - q / ?ulp\<bar> * ?ulp = \<bar>of_int ?m * ?ulp - q\<bar>"
  proof -
    have "\<bar>of_int ?m - q / ?ulp\<bar> * ?ulp = \<bar>(of_int ?m - q / ?ulp) * ?ulp\<bar>"
      using ulp by (simp add: abs_mult)
    also have "(of_int ?m - q / ?ulp) * ?ulp = of_int ?m * ?ulp - q"
      using ulp by (simp add: left_diff_distrib)
    finally show ?thesis .
  qed
  moreover have "1 / 2 * ?ulp = 2 powi ?e / 2 ^ 53"
  proof -
    have "?ulp = 2 powi ?e / 2 powi 52" by (simp add: power_int_diff)
    then show ?thesis by simp
  qed
  moreover have "(2::rat) powi ?e / 2 ^ 53 \<le> q / 2 ^ 53"
    using binary_exponent_le [OF assms] by (simp add: divide_right_mono)
  ultimately show ?thesis by (simp add: nearest_double_def Let_def)
qed

lemma fl_error: "0 < q \<Longrightarrow> \<bar>fl q - q\<bar> \<le> q / 2 ^ 53"
  using nearest_double_error [of q] by (simp add: fl_def)

lemma percent_error:
  assumes x: "0 < x" "x \<le> 1"
  shows "\<bar>fl (fl x * 100) - 100 * x\<bar> < 1 / 2 ^ 45" and "0 \<le> fl (fl x * 100)"
proof -
  define u :: rat where "u = 1 / 9007199254740992"
  let ?y = "fl x" and ?z = "fl (fl x * 100)"
  have u: "q / 2 ^ 53 = q * u" for q by (simp add: u_def)
  from fl_error [OF x(1)] have "\<bar>?y - x\<bar> \<le> x * u" by (simp only: u)
  then have y: "x - x * u \<le> ?y" "?y \<le> x + x * u" by (simp_all only: abs_le_iff) linarith+
  have xu: "0 < x * u" "x * u \<le> u" "x * u < x" using x by (simp_all add: u_def)
  from y xu have ypos: "0 < ?y * 100" by simp
  from fl_error [OF ypos] have "\<bar>?z - ?y * 100\<bar> \<le> ?y * 100 * u" by (simp only: u)
  then have z: "?y * 100 - ?y * 100 * u \<le> ?z" "?z \<le> ?y * 100 + ?y * 100 * u"
    by (simp_all only: abs_le_iff) linarith+
  have yu: "?y * u \<le> (x + x * u) * u" "0 \<le> ?y * u"
    using y ypos by (simp_all add: u_def)
  have xuu: "x * u * u \<le> u * u" using xu(2) by (simp add: u_def)
  have num: "100 * (2 * u + u * u) < 1 / 2 ^ 45" by (simp add: u_def)
  have "?z - 100 * x \<le> 100 * (2 * u + u * u)"
    using z(2) y(2) yu(1) xu(2) xuu by (simp add: algebra_simps)
  moreover have "- (100 * (2 * u + u * u)) \<le> ?z - 100 * x"
    using z(1) y(1) yu(1) xu(2) xuu by (simp add: algebra_simps)
  ultimately show "\<bar>?z - 100 * x\<bar> < 1 / 2 ^ 45"
    using num unfolding abs_less_iff by linarith
  have "?y * 100 * u \<le> ?y * 100" using ypos by (simp add: u_def)
  with z(1) show "0 \<le> ?z" by linarith
qed

lemma floor_percent:
  fixes c n :: int
  assumes c: "0 < c" "c \<le> n" and n: "n \<le> 2 ^ 45"
  defines "z \<equiv> fl (fl (of_int c / of_int n) * 100)"
  shows "100 * c div n - 1 \<le> \<lfloor>z\<rfloor>" and "\<lfloor>z\<rfloor> \<le> 100 * c div n"
    and "\<not> n dvd 100 * c \<Longrightarrow> \<lfloor>z\<rfloor> = 100 * c div n"
proof -
  let ?x = "of_int c / of_int n :: rat"
  let ?F = "100 * c div n" and ?R = "100 * c mod n"
  define f r i :: rat where "f = of_int ?F" and "r = of_int ?R / of_int n" and "i = 1 / of_int n"
  define d :: rat where "d = 1 / 35184372088832"
  from c have npos: "0 < n" by simp
  have x: "0 < ?x" "?x \<le> 1" using c by simp_all
  have "\<bar>z - 100 * ?x\<bar> < 1 / 2 ^ 45"
    unfolding z_def by (rule percent_error(1) [OF x])
  moreover have "(1::rat) / 2 ^ 45 = d" by (simp add: d_def)
  ultimately have err: "100 * ?x - d < z" "z < 100 * ?x + d"
    unfolding abs_less_iff by linarith+
  have split: "100 * ?x = f + r"
  proof -
    have "(of_int (?F * n + ?R) :: rat) = of_int (100 * c)" by (simp only: div_mult_mod_eq)
    then have "(of_int ?F * of_int n + of_int ?R :: rat) = 100 * of_int c"
      by (simp only: of_int_add of_int_mult of_int_numeral)
    then have "100 * ?x = (of_int ?F * of_int n + of_int ?R) / of_int n" by simp
    also have "\<dots> = of_int ?F + of_int ?R / of_int n"
      using npos by (simp add: add_divide_distrib)
    finally show ?thesis by (simp only: f_def r_def)
  qed
  have R: "0 \<le> ?R" "?R < n" using npos by simp_all
  have d_i: "d \<le> i"
  proof -
    from n have "(of_int n :: rat) \<le> of_int (2 ^ 45)" by (simp only: of_int_le_iff)
    then show ?thesis using npos by (simp add: field_simps d_def i_def)
  qed
  have d1: "0 < d" "d < 1" by (simp_all add: d_def)
  have r_lo: "0 \<le> r" using R npos by (simp add: r_def)
  have r_hi: "r \<le> 1 - i"
  proof -
    from R have "?R \<le> n - 1" by simp
    then have "(of_int ?R :: rat) \<le> of_int (n - 1)" by (simp only: of_int_le_iff)
    then show ?thesis using npos by (simp add: field_simps r_def i_def)
  qed
  have lo: "f - 1 \<le> z" using err(1) split r_lo d1 by linarith
  have hi: "z < f + 1" using err(2) split r_hi d_i by linarith
  from lo have "of_int (?F - 1) \<le> z" by (simp add: f_def)
  then show "?F - 1 \<le> \<lfloor>z\<rfloor>" by (simp only: le_floor_iff)
  from hi have hi': "z < of_int (?F + 1)" by (simp add: f_def)
  then have "\<lfloor>z\<rfloor> < ?F + 1" by (simp only: floor_less_iff)
  then show "\<lfloor>z\<rfloor> \<le> ?F" by simp
  show "\<lfloor>z\<rfloor> = ?F" if "\<not> n dvd 100 * c"
  proof -
    from that have "?R \<noteq> 0" by (simp add: dvd_eq_mod_eq_0)
    with R have "1 \<le> ?R" by simp
    then have "(of_int 1 :: rat) \<le> of_int ?R" by (simp only: of_int_le_iff)
    then have "i \<le> r"
      using npos by (simp add: divide_right_mono r_def i_def)
    with err(1) split d_i have "f \<le> z" by linarith
    then have "of_int ?F \<le> z" by (simp add: f_def)
    moreover from hi have "z < of_int ?F + 1" by (simp add: f_def)
    ultimately show ?thesis by (rule floor_unique)
  qed
qed

lemma fl_one: "fl 1 = 1"
  by code_simp

lemma fl_hundred: "fl 100 = 100"
  by code_simp

lemma completion_rate_expr_value:
  fixes c n :: int
  assumes c: "0 \<le> c" "c \<le> n" and n: "0 < n"
  shows "completion_rate_expr c n = Inr \<lfloor>fl (fl (of_int c / of_int n) * 100)\<rfloor>"
    and "0 \<le> \<lfloor>fl (fl (of_int c / of_int n) * 100)\<rfloor>"
    and "\<lfloor>fl (fl (of_int c / of_int n) * 100)\<rfloor> \<le> 100"
proof -
  let ?x = "of_int c / of_int n :: rat"
  let ?z = "fl (fl ?x * 100)"
  have z: "0 \<le> ?z \<and> ?z < 101"
  proof (cases "c = 0")
    case True
    then show ?thesis by (simp add: fl_def)
  next
    case False
    with c have x: "0 < ?x" "?x \<le> 1" using n by simp_all
    from percent_error(1) [OF x] have "?z - 100 * ?x < 1 / 2 ^ 45"
      unfolding abs_less_iff by simp
    moreover have "(1::rat) / 2 ^ 45 < 1" by simp
    ultimately have "?z < 101" using x(2) by linarith
    with percent_error(2) [OF x] show ?thesis by simp
  qed
  then show "completion_rate_expr c n = Inr \<lfloor>?z\<rfloor>"
    using n by (simp add: completion_rate_expr_def py_truediv_def py_float_mul_def py_int_def)
  from z show "0 \<le> \<lfloor>?z\<rfloor>" by simp
  from z have "\<lfloor>?z\<rfloor> < 101" by (simp add: floor_less_iff)
  then show "\<lfloor>?z\<rfloor> \<le> 100" by simp
qed

lemma floor_percent_zero:
  fixes n :: int
  shows "\<lfloor>fl (fl (of_int 0 / of_int n) * 100)\<rfloor> = 0"
  by (simp add: fl_def)

lemma floor_percent_all:
  fixes n :: int
  assumes "0 < n"
  shows "\<lfloor>fl (fl (of_int n / of_int n) * 100)\<rfloor> = 100"
  using assms by (simp add: fl_one fl_hundred)

lemma floor_percent_bracket:
  fixes c n :: int
  assumes c: "0 \<le> c" "c \<le> n" and n: "0 < n" "n \<le> 2 ^ 45"
  shows "100 * c div n - 1 \<le> \<lfloor>fl (fl (of_int c / of_int n) * 100)\<rfloor>
       \<and> \<lfloor>fl (fl (of_int c / of_int n) * 100)\<rfloor> \<le> 100 * c div n
       \<and> (\<not> n dvd 100 * c \<longrightarrow> \<lfloor>fl (fl (of_int c / of_int n) * 100)\<rfloor> = 100 * c div n)"
proof (cases "c = 0")
  case True
  then show ?thesis by (simp add: fl_def)
next
  case False
  with c have "0 < c" by simp
  from floor_percent [OF this c(2) n(2)] show ?thesis by simp
qed

text \<open>
  The double rounding does lose one: 29 of 50 is 58 percent, the float product is just
  below 58, and \<^verbatim>\<open>int()\<close> gives 57.
\<close>

lemma completion_rate_expr_29_of_50: "completion_rate_expr 29 50 = Inr 57"
  by code_simp

text \<open>
  Claim C1, as the code has it. For every task list with at least one task, the
  completion rate is \<^verbatim>\<open>int((completed / total_tasks) * 100)\<close>: the quotient of the two
  counts rounded to a float, its product with 100 rounded to a float, and that
  truncated, not rounded to nearest. It lies between 0 and 100, is 0 when no task is
  done and 100 when all are. For a list of at most \<open>2\<^sup>4\<^sup>5\<close> tasks it is the floor of the
  exact percentage \<open>100 * completed / total\<close> whenever that percentage is not a whole
  number, and that whole number or one less when it is. For two tasks with statuses Done
  and Pending it is 50.
\<close>

theorem completion_rate_truncates:
  assumes "df \<noteq> []"
  shows "(let c = int (length (filter (\<lambda>t. Status t = ''Done'') df)); n = int (length df)
          in \<exists>r. completion_rate df = Inr r
               \<and> r = \<lfloor>fl (fl (of_int c / of_int n) * 100)\<rfloor>
               \<and> 0 \<le> r \<and> r \<le> 100
               \<and> (c = 0 \<longrightarrow> r = 0)
               \<and> (c = n \<longrightarrow> r = 100)
               \<and> (length df \<le> 2 ^ 45 \<longrightarrow>
                    100 * c div n - 1 \<le> r \<and> r \<le> 100 * c div n
                    \<and> (\<not> n dvd 100 * c \<longrightarrow> r = 100 * c div n)))
       \<and> completion_rate [example_task ''Math'' ''Done'', example_task ''Math'' ''Pending''] = Inr 50"
proof
  let ?c = "int (length (filter (\<lambda>t. Status t = ''Done'') df))" and ?n = "int (length df)"
  let ?r = "\<lfloor>fl (fl (of_int ?c / of_int ?n) * 100)\<rfloor>"
  have c: "0 \<le> ?c" "?c \<le> ?n" by simp_all
  from assms have n: "0 < ?n" by simp
  have "completion_rate df = completion_rate_expr ?c ?n"
    using assms by (simp add: completion_rate_def completed_nonempty total_tasks_def)
  with completion_rate_expr_value [OF c n]
  have 1: "completion_rate df = Inr ?r" "0 \<le> ?r" "?r \<le> 100" by simp_all
  have 2: "?c = 0 \<longrightarrow> ?r = 0" using floor_percent_zero [of ?n] by simp
  have 3: "?c = ?n \<longrightarrow> ?r = 100" using floor_percent_all [OF n] by simp
  have 4: "length df \<le> 2 ^ 45 \<longrightarrow>
      100 * ?c div ?n - 1 \<le> ?r \<and> ?r \<le> 100 * ?c div ?n
      \<and> (\<not> ?n dvd 100 * ?c \<longrightarrow> ?r = 100 * ?c div ?n)"
  proof
    assume "length df \<le> 2 ^ 45"
    then have "int (length df) \<le> int (2 ^ 45)" by (simp only: of_nat_le_iff)
    then have "?n \<le> 2 ^ 45" by simp
    from floor_percent_bracket [OF c n this]
    show "100 * ?c div ?n - 1 \<le> ?r \<and> ?r \<le> 100 * ?c div ?n
      \<and> (\<not> ?n dvd 100 * ?c \<longrightarrow> ?r = 100 * ?c div ?n)" .
  qed
  from 1 2 3 4
  show "let c = ?c; n = ?n
        in \<exists>r. completion_rate df = Inr r
             \<and> r = \<lfloor>fl (fl (of_int c / of_int n) * 100)\<rfloor>
             \<and> 0 \<le> r \<and> r \<le> 100
             \<and> (c = 0 \<longrightarrow> r = 0)
             \<and> (c = n \<longrightarrow> r = 100)
             \<and> (length df \<le> 2 ^ 45 \<longrightarrow>
                  100 * c div n - 1 \<le> r \<and> r \<le> 100 * c div n
                  \<and> (\<not> n dvd 100 * c \<longrightarrow> r = 100 * c div n))"
    unfolding Let_def by blast
next
  show "completion_rate [example_task ''Math'' ''Done'', example_task ''Math'' ''Pending''] = Inr 50"
    by code_simp
qed

text \<open>
  Two of three tasks done: 200 is no multiple of 3, so the rate is the floor, 66. No
  task of two done: the rate is 0.
\<close>

theorem completion_rate_truncates_witness:
  "completion_rate
     [example_task ''Math'' ''Done'', example_task ''Math'' ''Done'',
      example_task ''Math'' ''Pending''] = Inr 66
   \<and> completion_rate (tasks two_tasks) = Inr 0"
proof -
  let ?df = "[example_task ''Math'' ''Done'', example_task ''Math'' ''Done'',
              example_task ''Math'' ''Pending'']"
  have 1: "?df \<noteq> []" by simp
  have 2: "length ?df \<le> 2 ^ 45" by simp
  have c: "int (length (filter (\<lambda>t. Status t = ''Done'') ?df)) = 2" "int (length ?df) = 3"
    by (simp_all add: example_task_def)
  from completion_rate_truncates [OF 1] 2 obtain r where
    r: "completion_rate ?df = Inr r"
    and "\<not> int (length ?df) dvd 100 * int (length (filter (\<lambda>t. Status t = ''Done'') ?df)) \<longrightarrow>
           r = 100 * int (length (filter (\<lambda>t. Status t = ''Done'') ?df)) div int (length ?df)"
    unfolding Let_def by blast
  then have "\<not> (3::int) dvd 100 * 2 \<longrightarrow> r = 100 * 2 div 3" by (simp only: c)
  then have "r = 66" by simp
  with r have a: "completion_rate ?df = Inr 66" by simp
  have 3: "tasks two_tasks \<noteq> []" by (simp add: two_tasks_def)
  have z: "int (length (filter (\<lambda>t. Status t = ''Done'') (tasks two_tasks))) = 0"
    by (simp add: two_tasks_def example_task_def)
  from completion_rate_truncates [OF 3] obtain r' where
    r': "completion_rate (tasks two_tasks) = Inr r'"
    and "int (length (filter (\<lambda>t. Status t = ''Done'') (tasks two_tasks))) = 0 \<longrightarrow> r' = 0"
    unfolding Let_def by blast
  with z have "r' = 0" by simp
  with r' have b: "completion_rate (tasks two_tasks) = Inr 0" by simp
  from a b show ?thesis by (rule conjI)
qed

text \<open>
  Claim C1 as stated fails on that list: the nearest integer to 200/3 is 67, the
  completion rate shown is 66.
\<close>

theorem completion_rate_is_not_rounded:
  "completion_rate
     [example_task ''Math'' ''Done'', example_task ''Math'' ''Done'',
      example_task ''Math'' ''Pending''] = Inr 66
   \<and> round (100 * 2 / 3 :: rat) = 67"
  by code_simp

end
